theory Spec2Isabelle
  imports Main "HOL-Library.Word"
begin

unbundle bit_operations_syntax

section \<open>The bigbigint class of BigBigInt.h and BigBigInt.cpp\<close>

text \<open>
  The header defines \<^verbatim>\<open>D_LONG\<close> as \<^verbatim>\<open>__int64\<close> under WIN32 only (the other
  branch, \<^verbatim>\<open>double long\<close>, is a floating-point type, for which
  \<^verbatim>\<open>unsigned D_LONG\<close> does not compile), and \<^verbatim>\<open>MEM_ARCH_USES_BIG_ENDIAN\<close> is
  not defined. The embedding therefore uses the types of that build: a little-endian
  machine, \<^verbatim>\<open>char\<close> of 8 bits, \<^verbatim>\<open>int\<close>, \<^verbatim>\<open>long\<close> and
  \<^verbatim>\<open>BBI_BASE_TYPE\<close> of 32 bits, \<^verbatim>\<open>D_LONG\<close> of 64 bits. Buffer sizes and
  indices are natural numbers (they stay far below \<open>2 ^ 32\<close>).
\<close>

subsection \<open>Data\<close>

text \<open>
  The private members of the class. \<open>first_byte\<close> is the content of the malloc'ed block
  \<^verbatim>\<open>_first_byte\<close> points to, most significant byte first.
\<close>

record bigbigint =
  first_byte :: "8 word list"
  num_bytes :: nat
  length_bbi :: nat
  flags :: "8 word"

definition BBI_MIN_SIZE :: nat where
  "BBI_MIN_SIZE = 2"

definition sizeof_BBI_BASE_TYPE :: nat where
  "sizeof_BBI_BASE_TYPE = 4"

definition BBI_NEGATIVE :: "8 word" where
  "BBI_NEGATIVE = 1"

definition IS_NEGATIVE :: "8 word \<Rightarrow> bool" where
  "IS_NEGATIVE v = (v AND BBI_NEGATIVE \<noteq> 0)"

text \<open>What the constructors establish and every member function keeps.\<close>

definition wf :: "bigbigint \<Rightarrow> bool" where
  "wf b = (BBI_MIN_SIZE \<le> length_bbi b
           \<and> num_bytes b = length_bbi b * sizeof_BBI_BASE_TYPE
           \<and> length (first_byte b) = num_bytes b)"

text \<open>The magnitude: the bytes read as one base-256 number, most significant first.\<close>

fun le_val :: "8 word list \<Rightarrow> nat" where
  "le_val [] = 0"
| "le_val (x # xs) = unat x + 256 * le_val xs"

definition be_val :: "8 word list \<Rightarrow> nat" where
  "be_val bs = le_val (rev bs)"

definition magnitude :: "bigbigint \<Rightarrow> nat" where
  "magnitude b = be_val (first_byte b)"

subsection \<open>Memory primitives\<close>

text \<open>
  \<^verbatim>\<open>memset(dst + off, v, n)\<close> and \<^verbatim>\<open>memcpy(dst + off, src, n)\<close> on the content
  of a block.
\<close>

definition memset :: "8 word list \<Rightarrow> nat \<Rightarrow> 8 word \<Rightarrow> nat \<Rightarrow> 8 word list" where
  "memset dst off v n = take off dst @ replicate n v @ drop (off + n) dst"

definition memcpy :: "8 word list \<Rightarrow> nat \<Rightarrow> 8 word list \<Rightarrow> nat \<Rightarrow> 8 word list" where
  "memcpy dst off src n = take off dst @ take n src @ drop (off + n) dst"

text \<open>
  \<^verbatim>\<open>memcmp\<close>: the first \<open>n\<close> bytes compared as unsigned characters; only the sign
  of the result is used by the callers.
\<close>

fun memcmp :: "8 word list \<Rightarrow> 8 word list \<Rightarrow> nat \<Rightarrow> int" where
  "memcmp (x # xs) (y # ys) (Suc n) =
     (if x < y then - 1 else if y < x then 1 else memcmp xs ys n)"
| "memcmp xs ys n = 0"

text \<open>
  \<^verbatim>\<open>_malloc\<close> and \<^verbatim>\<open>_constructor\<close>: the block malloc returns is not
  initialised, and the constructor does not set \<^verbatim>\<open>_flags\<close>. Every function below
  assigns to a fresh object before reading it, and an assignment overwrites the whole
  block and the flags whatever they held (lemmas \<open>assign_int_overwrites\<close> and
  \<open>assign_overwrites\<close>), so the model hands out a block of zero bytes and a zero flags
  byte. The \<^verbatim>\<open>exit(2)\<close> on a failed allocation is not modelled.
\<close>

definition malloc :: "nat \<Rightarrow> 8 word list" where
  "malloc n = replicate n 0"

definition constructor :: "nat \<Rightarrow> bigbigint" where
  "constructor size0 =
     (let size1 = (if size0 < BBI_MIN_SIZE then BBI_MIN_SIZE else size0)
      in \<lparr>first_byte = malloc (size1 * sizeof_BBI_BASE_TYPE),
          num_bytes = size1 * sizeof_BBI_BASE_TYPE,
          length_bbi = size1,
          flags = 0\<rparr>)"

definition upsize :: "nat \<Rightarrow> bigbigint \<Rightarrow> bigbigint" where
  "upsize new_length this =
     (let save_ptr = first_byte this;
          save_num_bytes = num_bytes this;
          new_num_bytes = new_length * sizeof_BBI_BASE_TYPE;
          offset = new_num_bytes - save_num_bytes;
          block = memset (malloc new_num_bytes) 0 0 offset
      in this\<lparr>length_bbi := new_length, num_bytes := new_num_bytes,
              first_byte := memcpy block offset save_ptr save_num_bytes\<rparr>)"

definition zero_fill :: "bigbigint \<Rightarrow> bigbigint" where
  "zero_fill this = this\<lparr>first_byte := memset (first_byte this) 0 0 (num_bytes this)\<rparr>"

definition zero_fill_n :: "nat \<Rightarrow> bigbigint \<Rightarrow> bigbigint" where
  "zero_fill_n num_byts_to_fill this =
     (if num_byts_to_fill = 0 then this
      else this\<lparr>first_byte := memset (first_byte this) 0 0 num_byts_to_fill\<rparr>)"

text \<open>\<^verbatim>\<open>copy\<close>, on a freed or fresh object: a new block with the other's content.\<close>

definition copy :: "bigbigint \<Rightarrow> bigbigint" where
  "copy item_to_copy =
     \<lparr>first_byte = memcpy (malloc (num_bytes item_to_copy)) 0
                      (first_byte item_to_copy) (num_bytes item_to_copy),
      num_bytes = num_bytes item_to_copy,
      length_bbi = length_bbi item_to_copy,
      flags = flags item_to_copy\<rparr>"

subsection \<open>Assignment\<close>

text \<open>
  \<^verbatim>\<open>operator =(const bigbigint &NewVal)\<close>. The self-assignment test returns
  the object unchanged, which is also what the first branch computes.
\<close>

definition assign :: "bigbigint \<Rightarrow> bigbigint \<Rightarrow> bigbigint" where
  "assign this NewVal =
     (if num_bytes this = num_bytes NewVal then
        this\<lparr>first_byte := memcpy (first_byte this) 0 (first_byte NewVal) (num_bytes this),
             flags := flags NewVal\<rparr>
      else if num_bytes this < num_bytes NewVal then
        copy NewVal
      else
        (let offset = num_bytes this - num_bytes NewVal;
             this1 = this\<lparr>first_byte :=
                       memcpy (first_byte this) offset (first_byte NewVal) (num_bytes NewVal)\<rparr>
         in (zero_fill_n offset this1)\<lparr>flags := flags NewVal\<rparr>))"

text \<open>
  The object representation of an integer of \<open>sz\<close> bytes on the little-endian machine,
  and \<^verbatim>\<open>REVERSE_BYTE_ORDER\<close>, which swaps the bytes end for end.
\<close>

definition object_bytes :: "nat \<Rightarrow> int \<Rightarrow> 8 word list" where
  "object_bytes sz v = map (\<lambda>i. word_of_int (v div 256 ^ i)) [0..<sz]"

definition REVERSE_BYTE_ORDER :: "8 word list \<Rightarrow> 8 word list" where
  "REVERSE_BYTE_ORDER bs = rev bs"

text \<open>
  \<^verbatim>\<open>ASSIGN_OP_BODY_INT_TYPES\<close> for an integer type of \<open>sz\<close> bytes holding the
  value \<open>v\<close>. \<^verbatim>\<open>0 - v\<close> is stored back into the \<open>sz\<close> bytes of the variable.
\<close>

definition assign_int :: "nat \<Rightarrow> int \<Rightarrow> bigbigint \<Rightarrow> bigbigint" where
  "assign_int sz v this =
     (let this1 = this\<lparr>flags := 0\<rparr>;
          this2 = (if v < 0 then this1\<lparr>flags := flags this1 OR BBI_NEGATIVE\<rparr> else this1);
          v1 = (if v < 0 then 0 - v else v);
          this3 = zero_fill this2;
          var = REVERSE_BYTE_ORDER (object_bytes sz v1);
          offset = num_bytes this3 - sz
      in this3\<lparr>first_byte := memcpy (first_byte this3) offset var sz\<rparr>)"

text \<open>
  A bigbigint built the way client code does: default constructor, then assignment of a
  32-bit \<^verbatim>\<open>int\<close>.
\<close>

definition bbi_of_int :: "int \<Rightarrow> bigbigint" where
  "bbi_of_int v = assign_int 4 v (constructor 0)"

subsection \<open>Conversion to the primitive integer types\<close>

text \<open>
  \<^verbatim>\<open>CAST_OPERATOR_FUNCTION(T)\<close> for a type of \<open>sz\<close> bytes. The body converts the
  pointer \<^verbatim>\<open>_first_byte + (_num_bytes - sizeof(T))\<close> itself to \<open>T\<close>; it does not
  read the bytes it points to. So the result depends on where malloc placed the block:
  \<open>addr\<close> is that address. The result is the value of the \<open>sz\<close> bytes of
  \<^verbatim>\<open>tmp_var\<close> read as unsigned.
\<close>

definition cast_operator :: "nat \<Rightarrow> nat \<Rightarrow> bigbigint \<Rightarrow> nat" where
  "cast_operator sz addr this =
     (let tmp_var = (addr + (num_bytes this - sz)) mod 2 ^ (8 * sz)
      in if IS_NEGATIVE (flags this)
         then nat ((0 - int tmp_var) mod 2 ^ (8 * sz))
         else tmp_var)"

subsection \<open>Negation, addition and subtraction\<close>

definition MAX_val :: "nat \<Rightarrow> nat \<Rightarrow> nat" where
  "MAX_val val1 val2 = (if val1 > val2 then val1 else val2)"

text \<open>Unary \<^verbatim>\<open>operator -()\<close>.\<close>

definition neg :: "bigbigint \<Rightarrow> bigbigint" where
  "neg this =
     (let tVal = assign (constructor (length_bbi this)) this
      in tVal\<lparr>flags := flags tVal XOR BBI_NEGATIVE\<rparr>)"

text \<open>
  \<^verbatim>\<open>ONES_COMPLEMENT\<close>: bitwise NOT of the \<^verbatim>\<open>_length\<close> words of the buffer.
\<close>

definition ONES_COMPLEMENT :: "bigbigint \<Rightarrow> bigbigint" where
  "ONES_COMPLEMENT v =
     v\<lparr>first_byte := map NOT (take (length_bbi v * sizeof_BBI_BASE_TYPE) (first_byte v))
                       @ drop (length_bbi v * sizeof_BBI_BASE_TYPE) (first_byte v)\<rparr>"

text \<open>
  The byte loop shared by \<^verbatim>\<open>operator +\<close> and \<^verbatim>\<open>operator -\<close>. Both pointers start
  at the last byte of their buffer and step down together until one of them passes the
  first byte, so the model recurses over the two buffers in reverse. It returns the bytes
  stored (last byte first) and the final \<^verbatim>\<open>result\<close>.
\<close>

fun add_loop :: "8 word list \<Rightarrow> 8 word list \<Rightarrow> nat \<Rightarrow> 8 word list \<times> nat" where
  "add_loop (x # xs) (y # ys) result =
     (let result1 = result + (unat x + unat y);
          stored = (word_of_nat (result1 AND 255) :: 8 word);
          result2 = (if result1 > 255 then drop_bit 8 result1 else 0);
          (rest, result3) = add_loop xs ys result2
      in (stored # rest, result3))"
| "add_loop xs ys result = ([], result)"

text \<open>Storing through a pointer that walks down from the last byte of \<open>buf\<close>.\<close>

definition store_from_end :: "8 word list \<Rightarrow> 8 word list \<Rightarrow> 8 word list" where
  "store_from_end buf stored = take (length buf - length stored) buf @ rev stored"

text \<open>
  Step 3b of the subtraction: the end-around carry is added from the last byte upwards
  until it is absorbed. The argument is the buffer in reverse.
\<close>

fun carry_loop :: "8 word list \<Rightarrow> nat \<Rightarrow> 8 word list" where
  "carry_loop (x # xs) result =
     (let result1 = result + unat x;
          stored = (word_of_nat (result1 AND 255) :: 8 word)
      in if result1 \<le> 255 then stored # xs
         else stored # carry_loop xs (drop_bit 8 result1))"
| "carry_loop [] result = []"

text \<open>
  Negation flips the test \<^verbatim>\<open>IS_NEGATIVE\<close>; the recursion of addition and
  subtraction below ends for this reason.
\<close>

lemma flags_assign [simp]: "flags (assign a b) = flags b"
  by (simp add: assign_def copy_def zero_fill_n_def Let_def)

lemma flags_neg: "flags (neg x) = flags x XOR BBI_NEGATIVE"
  by (simp add: neg_def Let_def)

lemma IS_NEGATIVE_neg [simp]: "IS_NEGATIVE (flags (neg x)) = (\<not> IS_NEGATIVE (flags x))"
  by (simp add: flags_neg IS_NEGATIVE_def BBI_NEGATIVE_def and_one_eq even_xor_iff
      flip: odd_iff_mod_2_eq_one even_iff_mod_2_eq_zero)

text \<open>
  Binary \<^verbatim>\<open>operator +(bigbigint)\<close> and \<^verbatim>\<open>operator -(bigbigint)\<close>. The argument
  is passed by value; \<^verbatim>\<open>*this\<close> can be assigned to, so each function returns the
  pair of \<^verbatim>\<open>*this\<close> after the call and the value returned.
\<close>

function plus_bbi :: "bigbigint \<Rightarrow> bigbigint \<Rightarrow> bigbigint \<times> bigbigint"
  and minus_bbi :: "bigbigint \<Rightarrow> bigbigint \<Rightarrow> bigbigint \<times> bigbigint" where
  "plus_bbi this PlusVal =
     (let tVal = constructor (MAX_val (length_bbi this) (length_bbi PlusVal))
      in if IS_NEGATIVE (flags this) \<and> \<not> IS_NEGATIVE (flags PlusVal) then
           (let (PlusVal1, r) = minus_bbi PlusVal (neg this);
                this1 = assign this r
            in (this1, this1))
         else if \<not> IS_NEGATIVE (flags this) \<and> IS_NEGATIVE (flags PlusVal) then
           (let (this1, r) = minus_bbi this (neg PlusVal);
                this2 = assign this1 r
            in (this2, this2))
         else
           (let tVal1 = assign_int 4 0 tVal;
                tVal2 = tVal1\<lparr>flags := flags this\<rparr>;
                (stored, result) = add_loop (rev (first_byte this)) (rev (first_byte PlusVal)) 0;
                tVal3 = tVal2\<lparr>first_byte := store_from_end (first_byte tVal2) stored\<rparr>
            in if result > 0 then
                 (let tVal4 = upsize (length_bbi tVal3 + 1) tVal3
                  in (this, tVal4\<lparr>first_byte := (first_byte tVal4)
                        [sizeof_BBI_BASE_TYPE - 1 := word_of_nat (result AND 255)]\<rparr>))
               else (this, tVal3)))"
| "minus_bbi this Subtrahend =
     (let tVal = constructor (MAX_val (length_bbi this) (length_bbi Subtrahend))
      in if \<not> IS_NEGATIVE (flags this) \<and> IS_NEGATIVE (flags Subtrahend) then
           (let (this1, r) = plus_bbi this (neg Subtrahend)
            in (this1, assign tVal r))
         else if IS_NEGATIVE (flags this) \<and> IS_NEGATIVE (flags Subtrahend) then
           (let (s1, r) = minus_bbi (neg Subtrahend) (neg this)
            in (this, assign tVal r))
         else if IS_NEGATIVE (flags this) \<and> \<not> IS_NEGATIVE (flags Subtrahend) then
           (let (this1, r) = plus_bbi this (neg Subtrahend)
            in (this1, assign tVal r))
         else
           (let tVal1 = assign tVal Subtrahend;
                tVal2 = tVal1\<lparr>flags := flags this\<rparr>;
                tVal3 = ONES_COMPLEMENT tVal2;
                (stored, result) = add_loop (rev (first_byte this)) (rev (first_byte tVal3)) 0;
                tVal4 = tVal3\<lparr>first_byte := store_from_end (first_byte tVal3) stored\<rparr>
            in if result \<le> 0 then
                 (let tVal5 = ONES_COMPLEMENT tVal4
                  in if IS_NEGATIVE (flags tVal5)
                     then (this, tVal5\<lparr>flags := flags tVal5 AND NOT BBI_NEGATIVE\<rparr>)
                     else (this, tVal5\<lparr>flags := flags tVal5 OR BBI_NEGATIVE\<rparr>))
               else
                 (this, tVal4\<lparr>first_byte := rev (carry_loop (rev (first_byte tVal4)) result)\<rparr>)))"
  by pat_completeness auto

termination
  by (relation "measure (\<lambda>x. case x of
        Inl (a, b) \<Rightarrow> (if IS_NEGATIVE (flags a) = IS_NEGATIVE (flags b) then 0 else 1)
      | Inr (a, b) \<Rightarrow> (if \<not> IS_NEGATIVE (flags a) \<and> \<not> IS_NEGATIVE (flags b) then 0 else 1))")
    auto

declare plus_bbi.simps [simp del] minus_bbi.simps [simp del]

text \<open>\<^verbatim>\<open>operator +=(bigbigint)\<close>: the new \<^verbatim>\<open>*this\<close>.\<close>

definition plus_eq :: "bigbigint \<Rightarrow> bigbigint \<Rightarrow> bigbigint" where
  "plus_eq this PlusVal = (let (this1, r) = plus_bbi this PlusVal in assign this1 r)"

subsection \<open>Comparison\<close>

text \<open>
  The body the six comparison operators on two bigbigints share: the shorter operand is
  copied into a temporary of the longer length, then the buffers go to memcmp.
\<close>

definition comp_result_bbi :: "bigbigint \<Rightarrow> bigbigint \<Rightarrow> int" where
  "comp_result_bbi this CompVal =
     (if length_bbi CompVal > length_bbi this then
        (let tVal = assign (constructor (length_bbi CompVal)) this
         in memcmp (first_byte tVal) (first_byte CompVal) (num_bytes CompVal))
      else if length_bbi this > length_bbi CompVal then
        (let tVal = assign (constructor (length_bbi this)) CompVal
         in memcmp (first_byte this) (first_byte tVal) (num_bytes tVal))
      else memcmp (first_byte this) (first_byte CompVal) (num_bytes CompVal))"

definition greater_bbi :: "bigbigint \<Rightarrow> bigbigint \<Rightarrow> bool" where
  "greater_bbi this CompVal = (if comp_result_bbi this CompVal > 0 then True else False)"

definition less_bbi :: "bigbigint \<Rightarrow> bigbigint \<Rightarrow> bool" where
  "less_bbi this CompVal = (if comp_result_bbi this CompVal < 0 then True else False)"

definition equal_bbi :: "bigbigint \<Rightarrow> bigbigint \<Rightarrow> bool" where
  "equal_bbi this CompVal = (if comp_result_bbi this CompVal = 0 then True else False)"

text \<open>
  \<^verbatim>\<open>operator ==(int)\<close> and \<^verbatim>\<open>operator <(int)\<close>, from
  \<^verbatim>\<open>EQUALITY_OPERATOR_MEMBER_FUNCTION\<close> and \<^verbatim>\<open>LESS_THAN_OPERATOR_MEMBER_FUNCTION\<close>.
\<close>

definition equal_int :: "bigbigint \<Rightarrow> int \<Rightarrow> bool" where
  "equal_int this CompVal =
     (let tVal = assign_int 4 CompVal (constructor (length_bbi this));
          comp_result = memcmp (first_byte this) (first_byte tVal) (num_bytes tVal)
      in if comp_result = 0 then True else False)"

definition less_int :: "bigbigint \<Rightarrow> int \<Rightarrow> bool" where
  "less_int this CompVal =
     (if CompVal = 0 then IS_NEGATIVE (flags this)
      else
        (let tVal = assign_int 4 CompVal (constructor (length_bbi this));
             comp_result = memcmp (first_byte this) (first_byte tVal) (num_bytes tVal)
         in if comp_result < 0 then True else False))"

subsection \<open>Ways a call can fail to return a value\<close>

text \<open>
  \<open>Exit n\<close> is \<^verbatim>\<open>exit(n)\<close>; \<open>Out_of_bounds\<close> is a read or write outside the
  malloc'ed block; \<open>Undefined_shift\<close> is a shift of a 32-bit value by a negative amount or
  by 32 or more. A call that runs forever is the value \<open>None\<close> of the functions below that
  return an option.
\<close>

datatype fault = Exit nat | Out_of_bounds | Undefined_shift

text \<open>Sequencing: the next statement runs on the value of a call that returned.\<close>

definition on_value :: "fault + 'a \<Rightarrow> ('a \<Rightarrow> fault + 'b) \<Rightarrow> fault + 'b" where
  "on_value m f = (case m of Inl e \<Rightarrow> Inl e | Inr v \<Rightarrow> f v)"

subsection \<open>Shifts\<close>

text \<open>
  The loop of \<^verbatim>\<open>operator <<(unsigned long)\<close>; \<open>n\<close> is \<^verbatim>\<open>_num_bytes\<close>, so that
  \<^verbatim>\<open>p_last_byte\<close> is index \<open>n - 1\<close>. \<^verbatim>\<open>curr_byte\<close> is an unsigned long.
\<close>

function shl_loop ::
  "8 word list \<Rightarrow> nat \<Rightarrow> 8 word list \<Rightarrow> int \<Rightarrow> nat \<Rightarrow> nat \<Rightarrow> fault + 8 word list" where
  "shl_loop src n dst shift_value p_store p_load =
     (if p_load < n then
        (if shift_value < 0 \<or> 32 \<le> shift_value then Inl Undefined_shift
         else
           (let curr_byte = (ucast (src ! p_load) :: 32 word);
                curr_byte1 = push_bit 8 curr_byte;
                curr_byte2 = (if p_load + 1 < n
                              then curr_byte1 OR ucast (src ! (p_load + 1)) else curr_byte1);
                curr_byte3 = push_bit (nat shift_value) curr_byte2;
                curr_byte4 = drop_bit 8 curr_byte3;
                dst1 = dst[p_store := ucast (curr_byte4 AND 0xFF)]
            in shl_loop src n dst1 shift_value (p_store + 1) (p_load + 1)))
      else Inr dst)"
  by pat_completeness auto
termination
  by (relation "measure (\<lambda>(src, n, dst, shift_value, p_store, p_load). n - p_load)") auto

declare shl_loop.simps [simp del]

text \<open>
  \<^verbatim>\<open>operator <<(unsigned long Shift)\<close>. \<^verbatim>\<open>Shift-1 % 8\<close> parses as
  \<^verbatim>\<open>Shift - (1 % 8)\<close>, that is \<^verbatim>\<open>Shift - 1\<close>, converted to int.
\<close>

definition shift_left :: "bigbigint \<Rightarrow> 32 word \<Rightarrow> fault + bigbigint" where
  "shift_left this Shift =
     (let tVal = assign_int 4 0 (constructor (length_bbi this));
          offset = unat (Shift div 8);
          shift_value = sint (Shift - 1 mod 8)
      in if shift_value = 0 then
           Inr (tVal\<lparr>first_byte := memcpy (first_byte tVal) 0
                   (drop offset (first_byte this)) (num_bytes this - offset)\<rparr>)
         else
           (case shl_loop (first_byte this) (num_bytes this) (first_byte tVal)
                   shift_value 0 offset of
              Inl e \<Rightarrow> Inl e
            | Inr stored \<Rightarrow> Inr (tVal\<lparr>first_byte := stored\<rparr>)))"

text \<open>
  The loop of \<^verbatim>\<open>operator >>(unsigned long)\<close>; \<open>p_last\<close> is the index of
  \<^verbatim>\<open>p_last_byte\<close>, which is below the buffer when the offset exceeds its size.
\<close>

function shr_loop ::
  "8 word list \<Rightarrow> int \<Rightarrow> 8 word list \<Rightarrow> int \<Rightarrow> nat \<Rightarrow> nat \<Rightarrow> 32 word
     \<Rightarrow> fault + 8 word list" where
  "shr_loop src p_last dst shift_value p_store p_load curr_byte =
     (if int p_load \<le> p_last then
        (if shift_value < 0 \<or> 32 \<le> shift_value then Inl Undefined_shift
         else
           (let curr_byte1 = (if p_load = 0 then 0
                              else push_bit 8 (curr_byte OR ucast (src ! (p_load - 1))));
                curr_byte2 = curr_byte1 OR ucast (src ! p_load);
                curr_byte3 = drop_bit (nat shift_value) curr_byte2;
                dst1 = dst[p_store := ucast (curr_byte3 AND 0xFF)]
            in shr_loop src p_last dst1 shift_value (p_store + 1) (p_load + 1) curr_byte3))
      else Inr dst)"
  by pat_completeness auto
termination
  by (relation "measure (\<lambda>(src, p_last, dst, shift_value, p_store, p_load, curr_byte).
        nat (p_last + 1 - int p_load))") auto

declare shr_loop.simps [simp del]

definition shift_right :: "bigbigint \<Rightarrow> 32 word \<Rightarrow> fault + bigbigint" where
  "shift_right this Shift =
     (let tVal = assign_int 4 0 (constructor (length_bbi this));
          offset = unat (Shift div 8);
          shift_value = sint (Shift - 1 mod 8)
      in if shift_value = 0 then
           Inr (tVal\<lparr>first_byte := memcpy (first_byte tVal) offset
                   (first_byte this) (num_bytes this - offset)\<rparr>)
         else
           (case shr_loop (first_byte this) (int (num_bytes this) - int offset - 1)
                   (first_byte tVal) shift_value offset 0 0 of
              Inl e \<Rightarrow> Inl e
            | Inr stored \<Rightarrow> Inr (tVal\<lparr>first_byte := stored\<rparr>)))"

text \<open>
  \<^verbatim>\<open>LEFT_SHIFT_OPERATOR_MEMBER_FUNCTION(int)\<close> and
  \<^verbatim>\<open>LEFT_SHIFT_EQUAL_OPERATOR_MEMBER_FUNCTION(int)\<close>.
\<close>

definition shift_left_int :: "bigbigint \<Rightarrow> int \<Rightarrow> fault + bigbigint" where
  "shift_left_int this Shift =
     (if Shift < 0 then shift_right this (word_of_int (0 - Shift))
      else shift_left this (word_of_int Shift))"

definition shift_left_eq_int :: "bigbigint \<Rightarrow> int \<Rightarrow> fault + bigbigint" where
  "shift_left_eq_int this Shift =
     (case shift_left_int this Shift of Inl e \<Rightarrow> Inl e | Inr r \<Rightarrow> Inr (assign this r))"

subsection \<open>Bitwise or\<close>

text \<open>
  The loop of \<^verbatim>\<open>operator |(bigbigint)\<close>. Its condition is \<^verbatim>\<open>tVal._num_bytes\<close>
  (here \<open>n\<close>), not a bound on \<open>i\<close>: while \<open>n\<close> is not zero the index keeps growing and
  leaves the three blocks.
\<close>

function or_loop ::
  "nat \<Rightarrow> 8 word list \<Rightarrow> nat \<Rightarrow> 8 word list \<Rightarrow> 8 word list \<Rightarrow> fault + 8 word list" where
  "or_loop i tbuf n this_buf or_buf =
     (if n \<noteq> 0 then
        (if i < length tbuf \<and> i < length this_buf \<and> i < length or_buf
         then or_loop (i + 1) (tbuf[i := this_buf ! i OR or_buf ! i]) n this_buf or_buf
         else Inl Out_of_bounds)
      else Inr tbuf)"
  by pat_completeness auto
termination
  by (relation "measure (\<lambda>(i, tbuf, n, this_buf, or_buf). length tbuf - i)") auto

declare or_loop.simps [simp del]

definition bit_or :: "bigbigint \<Rightarrow> bigbigint \<Rightarrow> fault + bigbigint" where
  "bit_or this OrVal =
     (let tVal = assign_int 4 0 (constructor (length_bbi this))
      in case or_loop 0 (first_byte tVal) (num_bytes tVal) (first_byte this) (first_byte OrVal) of
           Inl e \<Rightarrow> Inl e
         | Inr stored \<Rightarrow> Inr (tVal\<lparr>first_byte := stored\<rparr>))"

text \<open>
  \<^verbatim>\<open>BIT_OR_OPERATOR_MEMBER_FUNCTION\<close> and \<^verbatim>\<open>BIT_OR_EQ_OPERATOR_MEMBER_FUNCTION\<close>
  for a 32-bit integer type.
\<close>

definition bit_or_int :: "bigbigint \<Rightarrow> int \<Rightarrow> fault + bigbigint" where
  "bit_or_int this OrVal =
     (let tVal = assign_int 4 OrVal (constructor (length_bbi this))
      in bit_or this tVal)"

definition bit_or_eq_int :: "bigbigint \<Rightarrow> int \<Rightarrow> fault + bigbigint" where
  "bit_or_eq_int this OrVal =
     (case bit_or_int this OrVal of Inl e \<Rightarrow> Inl e | Inr r \<Rightarrow> Inr (assign this r))"

subsection \<open>Multiplication\<close>

text \<open>
  Access to the buffer through a \<^verbatim>\<open>BBI_BASE_TYPE*\<close>: word \<open>j\<close> is bytes \<open>4j\<close> to
  \<open>4j + 3\<close>, read and written in the machine's little-endian order.
  \<^verbatim>\<open>REVERSE_BYTE_ORDER\<close> on a word reverses its four bytes.
\<close>

fun le_word :: "8 word list \<Rightarrow> 32 word" where
  "le_word [] = 0"
| "le_word (x # xs) = ucast x + 256 * le_word xs"

definition word_bytes :: "32 word \<Rightarrow> 8 word list" where
  "word_bytes w = map (\<lambda>i. ucast (drop_bit (8 * i) w)) [0..<4]"

definition load_word :: "8 word list \<Rightarrow> nat \<Rightarrow> 32 word" where
  "load_word buf j = le_word (take 4 (drop (j * 4) buf))"

definition store_word :: "8 word list \<Rightarrow> nat \<Rightarrow> 32 word \<Rightarrow> 8 word list" where
  "store_word buf j w = memcpy buf (j * 4) (word_bytes w) 4"

definition reverse_word :: "32 word \<Rightarrow> 32 word" where
  "reverse_word w = le_word (REVERSE_BYTE_ORDER (word_bytes w))"

text \<open>
  The inner loop of \<^verbatim>\<open>operator *\<close>: \<^verbatim>\<open>p_this\<close> runs from the last word of the
  longer operand down to its first; the second equation is the body at word index
  \<open>p_this\<close>. \<^verbatim>\<open>result\<close> is an unsigned 64-bit value; the product of the two
  words is formed in \<^verbatim>\<open>D_LONG\<close> and added to it, which the model computes modulo
  \<open>2 ^ 64\<close>. The word of \<^verbatim>\<open>tVal\<close> is read and written without reversing its bytes.
\<close>

fun mul_inner ::
  "8 word list \<Rightarrow> nat \<Rightarrow> 8 word list \<Rightarrow> nat \<Rightarrow> 8 word list \<Rightarrow> nat \<Rightarrow> 64 word
     \<Rightarrow> 8 word list" where
  "mul_inner mult_buf p_mult this_buf 0 tval p_tval result = tval"
| "mul_inner mult_buf p_mult this_buf (Suc p_this) tval p_tval result =
     (let byte_1 = reverse_word (load_word mult_buf p_mult);
          byte_2 = reverse_word (load_word this_buf p_this);
          result1 = result + (ucast byte_1 :: 64 word) * (ucast byte_2 :: 64 word);
          result2 = result1 + ucast (load_word tval p_tval);
          tval1 = store_word tval p_tval (ucast (result2 AND 0xFFFFFFFF));
          result3 = drop_bit 32 result2
      in mul_inner mult_buf p_mult this_buf p_this tval1 (p_tval - 1) result3)"

text \<open>The outer loop: \<^verbatim>\<open>p_mult\<close> runs down over the words of the shorter operand.\<close>

fun mul_outer ::
  "8 word list \<Rightarrow> nat \<Rightarrow> 8 word list \<Rightarrow> nat \<Rightarrow> 8 word list \<Rightarrow> nat \<Rightarrow> nat
     \<Rightarrow> 8 word list" where
  "mul_outer mult_buf 0 this_buf this_length tval tval_length i = tval"
| "mul_outer mult_buf (Suc p_mult) this_buf this_length tval tval_length i =
     (let p_tval = tval_length - i;
          tval1 = mul_inner mult_buf p_mult this_buf this_length tval p_tval 0
      in mul_outer mult_buf p_mult this_buf this_length tval1 tval_length (i + 1))"

text \<open>\<^verbatim>\<open>operator *(const bigbigint &multiplier)\<close>.\<close>

definition times_bbi :: "bigbigint \<Rightarrow> bigbigint \<Rightarrow> bigbigint" where
  "times_bbi this multiplier =
     (let tVal = assign_int 4 0 (constructor (length_bbi this + length_bbi multiplier));
          stored =
            (if length_bbi this \<ge> length_bbi multiplier
             then mul_outer (first_byte multiplier) (length_bbi multiplier)
                    (first_byte this) (length_bbi this) (first_byte tVal) (length_bbi tVal) 1
             else mul_outer (first_byte this) (length_bbi this)
                    (first_byte multiplier) (length_bbi multiplier)
                    (first_byte tVal) (length_bbi tVal) 1);
          tVal1 = tVal\<lparr>first_byte := stored\<rparr>
      in if (IS_NEGATIVE (flags this) \<and> \<not> IS_NEGATIVE (flags multiplier))
            \<or> (\<not> IS_NEGATIVE (flags this) \<and> IS_NEGATIVE (flags multiplier))
         then tVal1\<lparr>flags := flags tVal1 OR BBI_NEGATIVE\<rparr>
         else tVal1)"

text \<open>
  \<^verbatim>\<open>MULTIPLY_EQ_OPERATOR_MEMBER_FUNCTION(bigbigint)\<close>, whose body is
  \<^verbatim>\<open>*this = *this + PlusVal\<close>: the new \<^verbatim>\<open>*this\<close>.
\<close>

definition times_eq :: "bigbigint \<Rightarrow> bigbigint \<Rightarrow> bigbigint" where
  "times_eq this PlusVal = (let (this1, r) = plus_bbi this PlusVal in assign this1 r)"

subsection \<open>Division\<close>

text \<open>
  The state of \<^verbatim>\<open>_perform_integral_division\<close>: its parameters and locals. The two
  counters are unsigned 64-bit.
\<close>

record division_state =
  dividend :: bigbigint
  divisor :: bigbigint
  quotient :: bigbigint
  remainder :: bigbigint
  sub_val :: bigbigint
  ds_num_bytes :: nat
  ds_num_bits :: nat

text \<open>The counter update at the end of both loop bodies.\<close>

definition count_bit :: "division_state \<Rightarrow> division_state" where
  "count_bit s =
     (let s1 = s\<lparr>ds_num_bits := (ds_num_bits s + 1) mod 2 ^ 64\<rparr>
      in if ds_num_bits s1 = 8
         then s1\<lparr>ds_num_bits := 0, ds_num_bytes := (ds_num_bytes s1 + 1) mod 2 ^ 64\<rparr>
         else s1)"

text \<open>\<^verbatim>\<open>*(v._first_byte) & 0x80\<close>.\<close>

definition top_bit :: "bigbigint \<Rightarrow> 32 word" where
  "top_bit v = ucast (first_byte v ! 0) AND 0x80"

text \<open>The body of the first loop, which shifts the leading zero bits off the dividend.\<close>

definition skip_step :: "division_state \<Rightarrow> fault + division_state" where
  "skip_step s =
     (case shift_left_int (dividend s) 1 of
        Inl e \<Rightarrow> Inl e
      | Inr r \<Rightarrow> Inr (count_bit (s\<lparr>dividend := assign (dividend s) r\<rparr>)))"

partial_function (option) skip_loop :: "division_state \<Rightarrow> (fault + division_state) option"
  where
  "skip_loop s =
     (if top_bit (dividend s) = 0 then
        (case skip_step s of
           Inl e \<Rightarrow> Some (Inl e)
         | Inr s1 \<Rightarrow> skip_loop s1)
      else Some (Inr s))"

text \<open>The body of the second loop, one bit of the dividend per round.\<close>

definition divide_step :: "division_state \<Rightarrow> fault + division_state" where
  "divide_step s =
     (let next_bit = drop_bit 8 (top_bit (dividend s))
      in on_value (shift_left_eq_int (remainder s) 1) (\<lambda>remainder1.
         on_value (bit_or_eq_int remainder1 (uint next_bit)) (\<lambda>remainder2.
           (let (remainder3, r) = minus_bbi remainder2 (divisor s);
                sub_val1 = assign (sub_val s) r
            in on_value (shift_left_eq_int (dividend s) 1) (\<lambda>dividend1.
               on_value (shift_left_eq_int (quotient s) 1) (\<lambda>quotient1.
               on_value
                 (if less_int sub_val1 0
                  then on_value (bit_or_eq_int quotient1 1)
                         (\<lambda>quotient2. Inr (quotient2, assign remainder3 sub_val1))
                  else Inr (quotient1, remainder3))
                 (\<lambda>(quotient3, remainder4).
                    (let quotient4 = (if top_bit quotient3 \<noteq> 0
                                      then upsize (length_bbi quotient3 + 1) quotient3
                                      else quotient3)
                     in Inr (count_bit (s\<lparr>dividend := dividend1, quotient := quotient4,
                                           remainder := remainder4,
                                           sub_val := sub_val1\<rparr>))))))))))"

partial_function (option) divide_loop :: "division_state \<Rightarrow> (fault + division_state) option"
  where
  "divide_loop s =
     (if ds_num_bytes s < num_bytes (dividend s) then
        (case divide_step s of
           Inl e \<Rightarrow> Some (Inl e)
         | Inr s1 \<Rightarrow> divide_loop s1)
      else Some (Inr s))"

text \<open>
  \<^verbatim>\<open>_perform_integral_division\<close>. The dividend and divisor are passed by value, the
  quotient and remainder by pointer: the result is the pair the two pointers lead to when
  the function returns.
\<close>

definition perform_integral_division ::
  "bigbigint \<Rightarrow> bigbigint \<Rightarrow> bigbigint \<Rightarrow> bigbigint
     \<Rightarrow> (fault + bigbigint \<times> bigbigint) option" where
  "perform_integral_division dividend0 divisor0 quotient0 remainder0 =
     (let sub_val0 = constructor 0;
          remainder1 = assign_int 4 0 remainder0;
          quotient1 = assign_int 4 0 quotient0
      in if equal_int divisor0 0 then Some (Inl (Exit 199))
         else if greater_bbi divisor0 dividend0 then
           Some (Inr (quotient1, assign remainder1 dividend0))
         else if equal_bbi divisor0 dividend0 then
           Some (Inr (assign_int 4 1 quotient1, remainder1))
         else if equal_int dividend0 1 then
           Some (Inr (assign quotient1 dividend0, remainder1))
         else if equal_int dividend0 0 then
           Some (Inr (quotient1, remainder1))
         else
           (case skip_loop \<lparr>dividend = dividend0, divisor = divisor0, quotient = quotient1,
                             remainder = remainder1, sub_val = sub_val0,
                             ds_num_bytes = 0, ds_num_bits = 0\<rparr> of
              None \<Rightarrow> None
            | Some (Inl e) \<Rightarrow> Some (Inl e)
            | Some (Inr s) \<Rightarrow>
                (case divide_loop s of
                   None \<Rightarrow> None
                 | Some (Inl e) \<Rightarrow> Some (Inl e)
                 | Some (Inr s1) \<Rightarrow> Some (Inr (quotient s1, remainder s1)))))"

text \<open>\<^verbatim>\<open>operator /(bigbigint divisor)\<close>: the quotient is returned.\<close>

definition divide_bbi :: "bigbigint \<Rightarrow> bigbigint \<Rightarrow> (fault + bigbigint) option" where
  "divide_bbi this divisor0 =
     (let tQuot = constructor 0;
          tRem = constructor 0
      in case perform_integral_division this divisor0 tQuot tRem of
           None \<Rightarrow> None
         | Some (Inl e) \<Rightarrow> Some (Inl e)
         | Some (Inr (q, r)) \<Rightarrow> Some (Inr q))"

section \<open>Lemmas on the representation\<close>

lemma assign_int_overwrites:
  "length bs = length (first_byte b) \<Longrightarrow> length (first_byte b) = num_bytes b \<Longrightarrow>
   assign_int sz v (b\<lparr>first_byte := bs, flags := f\<rparr>) = assign_int sz v b"
  by (simp add: assign_int_def zero_fill_def memset_def memcpy_def Let_def)

lemma assign_overwrites:
  "length bs = length (first_byte b) \<Longrightarrow> length (first_byte b) = num_bytes b \<Longrightarrow>
   assign (b\<lparr>first_byte := bs, flags := f\<rparr>) x = assign b x"
  by (simp add: assign_def zero_fill_n_def memset_def memcpy_def copy_def Let_def)

lemma num_bytes_assign_int [simp]: "num_bytes (assign_int sz v b) = num_bytes b"
  by (simp add: assign_int_def zero_fill_def Let_def)

lemma flags_assign_int_nonneg [simp]: "0 \<le> v \<Longrightarrow> flags (assign_int sz v b) = 0"
  by (simp add: assign_int_def zero_fill_def Let_def)

lemma num_bytes_constructor: "0 < num_bytes (constructor n)"
  by (simp add: constructor_def Let_def BBI_MIN_SIZE_def sizeof_BBI_BASE_TYPE_def)

lemma assign_same_size:
  assumes "num_bytes a = num_bytes r" "length (first_byte a) = num_bytes a"
    "length (first_byte r) = num_bytes r"
  shows "assign a r = a\<lparr>first_byte := first_byte r, flags := flags r\<rparr>"
  using assms by (simp add: assign_def memcpy_def)

subsection \<open>The byte loop of addition\<close>

lemma and_255: "(n::nat) AND 255 = n mod 256"
proof -
  have "n AND mask 8 = take_bit 8 n" by (rule take_bit_eq_mask [symmetric])
  then show ?thesis by (simp add: take_bit_eq_mod mask_eq_exp_minus_1)
qed

lemma drop_bit_8: "drop_bit 8 (n::nat) = n div 256"
  by (simp add: drop_bit_eq_div)

lemma unat_stored: "unat (word_of_nat (n mod 256) :: 8 word) = n mod 256"
  by (simp add: unat_of_nat)

lemma le_val_bound: "le_val xs < 256 ^ length xs"
proof (induction xs)
  case Nil
  show ?case by simp
next
  case (Cons x xs)
  have "unat x < 256" using unsigned_less [of x, where ?'a = nat] by simp
  with Cons show ?case by simp
qed

lemma le_val_append: "le_val (xs @ ys) = le_val xs + 256 ^ length xs * le_val ys"
  by (induction xs) (simp_all add: algebra_simps)

lemma add_loop_sound:
  "c \<le> 1 \<Longrightarrow> add_loop xs ys c = (outs, c') \<Longrightarrow>
   length outs = min (length xs) (length ys) \<and> c' \<le> 1
   \<and> le_val outs + 256 ^ length outs * c'
       = le_val (take (length outs) xs) + le_val (take (length outs) ys) + c"
proof (induction xs ys c arbitrary: outs c' rule: add_loop.induct)
  case (1 x xs y ys result)
  define r1 where "r1 = result + (unat x + unat y)"
  obtain rest c3 where rec: "add_loop xs ys (r1 div 256) = (rest, c3)"
    by (cases "add_loop xs ys (r1 div 256)") 
  have ux: "unat x < 256" and uy: "unat y < 256"
    using unsigned_less [of x, where ?'a = nat] unsigned_less [of y, where ?'a = nat] by simp_all
  have r1b: "r1 div 256 \<le> 1" using ux uy "1.prems"(1) by (simp add: r1_def)
  have r2: "(if r1 > 255 then drop_bit 8 r1 else 0) = r1 div 256"
    by (simp add: drop_bit_8)
  have outs: "outs = word_of_nat (r1 mod 256) # rest" and c': "c' = c3"
    using "1.prems"(2) rec by (simp_all add: Let_def r1_def [symmetric] and_255 r2 del: of_nat_add)
  have ih: "length rest = min (length xs) (length ys) \<and> c3 \<le> 1
     \<and> le_val rest + 256 ^ length rest * c3
       = le_val (take (length rest) xs) + le_val (take (length rest) ys) + r1 div 256"
    using "1.IH" [OF r1_def refl r2 [symmetric] r1b rec] .
  define k where "k = length rest"
  define A where "A = le_val (take k xs)"
  define B where "B = le_val (take k ys)"
  from ih have E: "le_val rest + 256 ^ k * c3 = A + B + r1 div 256"
    unfolding k_def A_def B_def by blast
  have "le_val outs + 256 ^ length outs * c'
          = r1 mod 256 + 256 * (le_val rest + 256 ^ k * c3)"
    by (simp add: outs c' unat_stored k_def algebra_simps)
  also have "\<dots> = r1 mod 256 + 256 * (A + B + r1 div 256)"
    by (simp only: E)
  also have "\<dots> = r1 + 256 * A + 256 * B"
    by (simp add: algebra_simps)
  also have "\<dots> = le_val (take (length outs) (x # xs))
                     + le_val (take (length outs) (y # ys)) + result"
    by (simp add: outs k_def A_def B_def r1_def)
  finally show ?case using ih by (simp add: outs c')
qed simp_all

lemma le_val_split:
  "k \<le> length xs \<Longrightarrow> le_val xs = le_val (take k xs) + 256 ^ k * le_val (drop k xs)"
  using le_val_append [of "take k xs" "drop k xs"] by simp

lemma le_val_upper:
  assumes "k \<le> length xs"
  shows "le_val xs + 256 ^ k \<le> le_val (take k xs) + 256 ^ length xs"
proof -
  have "le_val (drop k xs) < 256 ^ (length xs - k)"
    using le_val_bound [of "drop k xs"] by simp
  then have "le_val (drop k xs) + 1 \<le> 256 ^ (length xs - k)" by simp
  then have "256 ^ k * (le_val (drop k xs) + 1) \<le> 256 ^ k * 256 ^ (length xs - k)"
    by (rule mult_le_mono2)
  also have "\<dots> = 256 ^ length xs"
    using assms by (simp flip: power_add)
  finally show ?thesis
    using le_val_split [OF assms] by (simp add: algebra_simps)
qed

lemma add_loop_carry_out:
  assumes run: "add_loop xs ys 0 = (outs, c')"
    and big: "256 ^ max (length xs) (length ys) \<le> le_val xs + le_val ys"
  shows "c' = 1"
proof -
  define k where "k = min (length xs) (length ys)"
  have s: "length outs = k" "c' \<le> 1"
    "le_val outs + 256 ^ k * c' = le_val (take k xs) + le_val (take k ys)"
    using add_loop_sound [OF _ run] by (auto simp: k_def)
  have ob: "le_val outs < 256 ^ k"
    using le_val_bound [of outs] s(1) by simp
  have kx: "k \<le> length xs" and ky: "k \<le> length ys" by (simp_all add: k_def)
  show ?thesis
  proof (rule ccontr)
    assume "c' \<noteq> 1"
    with s(2) have "c' = 0" by simp
    with s(3) ob have low: "le_val (take k xs) + le_val (take k ys) < 256 ^ k" by simp
    show False
    proof (cases "length xs \<le> length ys")
      case True
      then have "k = length xs" and m: "max (length xs) (length ys) = length ys"
        by (simp_all add: k_def)
      then have "take k xs = xs" by simp
      with low le_val_upper [OF ky] have "le_val xs + le_val ys < 256 ^ length ys"
        by simp
      with big m show False by simp
    next
      case False
      then have "k = length ys" and m: "max (length xs) (length ys) = length xs"
        by (simp_all add: k_def)
      then have "take k ys = ys" by simp
      with low le_val_upper [OF kx] have "le_val xs + le_val ys < 256 ^ length xs"
        by simp
      with big m show False by simp
    qed
  qed
qed

lemma le_val_high_ones:
  assumes k: "k \<le> length xs"
    and big: "256 ^ length xs \<le> le_val xs + t" and t: "le_val (take k xs) + t < 2 * 256 ^ k"
  shows "le_val xs + 256 ^ k = le_val (take k xs) + 256 ^ length xs"
proof -
  define H where "H = le_val (drop k xs)"
  define d where "d = length xs - k"
  have sp: "le_val xs = le_val (take k xs) + 256 ^ k * H"
    unfolding H_def by (rule le_val_split [OF k])
  have pw: "(256::nat) ^ length xs = 256 ^ k * 256 ^ d"
    using k by (simp add: d_def flip: power_add)
  have Hb: "H < 256 ^ d"
    using le_val_bound [of "drop k xs"] by (simp add: H_def d_def)
  have "256 ^ k * 256 ^ d < 256 ^ k * H + 2 * 256 ^ k"
    using big t unfolding sp pw by simp
  also have "\<dots> = 256 ^ k * (H + 2)" by (simp add: algebra_simps)
  finally have "256 ^ k * 256 ^ d < 256 ^ k * (H + 2)" .
  then have "256 ^ d < H + 2" by (subst (asm) nat_mult_less_cancel1) simp_all
  then have "H + 1 = 256 ^ d"
    using Hb by simp
  then have "256 ^ k * (H + 1) = 256 ^ k * 256 ^ d" by simp
  then show ?thesis unfolding sp pw by (simp add: algebra_simps)
qed

lemma object_bytes_0: "object_bytes sz 0 = replicate sz 0"
  by (simp add: object_bytes_def map_replicate_const)

lemma assign_int_0:
  assumes "length (first_byte b) = num_bytes b" and "sz \<le> num_bytes b"
  shows "assign_int sz 0 b = b\<lparr>first_byte := replicate (num_bytes b) 0, flags := 0\<rparr>"
proof -
  have "replicate (num_bytes b - sz) (0::8 word) @ replicate sz 0 = replicate (num_bytes b) 0"
    using assms(2) by (simp flip: replicate_add)
  then show ?thesis
    using assms
    by (simp add: assign_int_def zero_fill_def memset_def memcpy_def Let_def
        object_bytes_0 REVERSE_BYTE_ORDER_def)
qed

lemma assign_int_0_constructor:
  assumes "\<not> L < BBI_MIN_SIZE"
  shows "assign_int 4 0 (constructor L)
         = \<lparr>first_byte = replicate (L * 4) 0, num_bytes = L * 4, length_bbi = L, flags = 0\<rparr>"
proof -
  have "4 \<le> L * 4" using assms by (simp add: BBI_MIN_SIZE_def)
  then show ?thesis
    using assms
    by (subst assign_int_0)
      (simp_all add: constructor_def malloc_def sizeof_BBI_BASE_TYPE_def)
qed

lemma upsize_one_word:
  assumes "length xs = L * 4"
  shows "upsize (Suc L) \<lparr>first_byte = xs, num_bytes = L * 4, length_bbi = L, flags = f\<rparr>
         = \<lparr>first_byte = replicate 4 0 @ xs, num_bytes = Suc L * 4, length_bbi = Suc L,
            flags = f\<rparr>"
  using assms
  by (simp add: upsize_def Let_def memset_def memcpy_def malloc_def sizeof_BBI_BASE_TYPE_def)

lemma store_carry_byte:
  "(replicate 4 (0::8 word) @ xs)[3 := v] = [0, 0, 0, v] @ xs"
  by (simp add: eval_nat_numeral)

lemma plus_bbi_same_sign:
  assumes sign: "IS_NEGATIVE (flags a) = IS_NEGATIVE (flags b)"
    and run: "add_loop (rev (first_byte a)) (rev (first_byte b)) 0 = (outs, c')"
  shows "plus_bbi a b =
     (let tVal2 = (assign_int 4 0 (constructor (MAX_val (length_bbi a) (length_bbi b))))
                     \<lparr>flags := flags a\<rparr>;
          tVal3 = tVal2\<lparr>first_byte := store_from_end (first_byte tVal2) outs\<rparr>
      in if c' > 0 then
           (let tVal4 = upsize (length_bbi tVal3 + 1) tVal3
            in (a, tVal4\<lparr>first_byte := (first_byte tVal4)
                  [sizeof_BBI_BASE_TYPE - 1 := word_of_nat (c' AND 255)]\<rparr>))
         else (a, tVal3))"
  using sign by (simp add: plus_bbi.simps [of a b] run Let_def)


subsection \<open>The first loop of the division\<close>

lemma shift_left_int_1:
  assumes "wf d"
  shows "shift_left_int d 1 = Inr \<lparr>first_byte = first_byte d, num_bytes = num_bytes d,
                                   length_bbi = length_bbi d, flags = 0\<rparr>"
proof -
  have L: "\<not> length_bbi d < BBI_MIN_SIZE" using assms by (simp add: wf_def)
  have n: "num_bytes d = length_bbi d * 4" "length (first_byte d) = length_bbi d * 4"
    using assms by (simp_all add: wf_def sizeof_BBI_BASE_TYPE_def)
  show ?thesis
    by (simp add: shift_left_int_def shift_left_def Let_def assign_int_0_constructor [OF L]
        memcpy_def n)
qed

lemma dividend_count_bit [simp]: "dividend (count_bit s) = dividend s"
  by (simp add: count_bit_def Let_def)

lemma skip_step_wf:
  assumes "wf (dividend s)"
  shows "\<exists>s1. skip_step s = Inr s1 \<and> dividend s1 = (dividend s)\<lparr>flags := 0\<rparr>"
proof -
  have n: "length (first_byte (dividend s)) = num_bytes (dividend s)"
    using assms by (simp add: wf_def)
  show ?thesis
    by (simp add: skip_step_def shift_left_int_1 [OF assms] assign_same_size n)
qed

text \<open>
  Shifting left by 1 copies the dividend as it is, so a dividend whose top bit is clear
  keeps the first loop running forever.
\<close>

lemma skip_loop_diverges:
  assumes "wf (dividend s)" and "top_bit (dividend s) = 0"
  shows "skip_loop s = None"
proof (rule ccontr)
  assume "skip_loop s \<noteq> None"
  then obtain y where y: "skip_loop s = Some y" by blast
  have "\<not> (wf (dividend s) \<and> top_bit (dividend s) = 0)"
  proof (rule skip_loop.raw_induct
      [where P = "\<lambda>s y. \<not> (wf (dividend s) \<and> top_bit (dividend s) = 0)", OF _ y])
    fix loop :: "division_state \<Rightarrow> (fault + division_state) option" and s y
    assume IH: "\<And>x y. loop x = Some y \<Longrightarrow> \<not> (wf (dividend x) \<and> top_bit (dividend x) = 0)"
      and body: "(if top_bit (dividend s) = 0
                  then case skip_step s of Inl e \<Rightarrow> Some (Inl e) | Inr s1 \<Rightarrow> loop s1
                  else Some (Inr s)) = Some y"
    show "\<not> (wf (dividend s) \<and> top_bit (dividend s) = 0)"
    proof
      assume inv: "wf (dividend s) \<and> top_bit (dividend s) = 0"
      then obtain s1 where s1: "skip_step s = Inr s1"
        "dividend s1 = (dividend s)\<lparr>flags := 0\<rparr>"
        using skip_step_wf by blast
      have inv1: "wf (dividend s1) \<and> top_bit (dividend s1) = 0"
        using inv s1(2) by (simp add: wf_def top_bit_def)
      from body inv s1(1) have "loop s1 = Some y" by simp
      from IH [OF this] inv1 show False by blast
    qed
  qed
  with assms show False by simp
qed

lemma gates_100_7:
  "equal_int (bbi_of_int 7) 0 = False"
  "greater_bbi (bbi_of_int 7) (bbi_of_int 100) = False"
  "equal_bbi (bbi_of_int 7) (bbi_of_int 100) = False"
  "equal_int (bbi_of_int 100) 1 = False"
  "equal_int (bbi_of_int 100) 0 = False"
  "top_bit (bbi_of_int 100) = 0"
  "wf (bbi_of_int 100)"
  by code_simp+

subsection \<open>The loop of the bitwise or\<close>

lemma or_loop_overrun: "n \<noteq> 0 \<Longrightarrow> or_loop i tbuf n this_buf or_buf = Inl Out_of_bounds"
proof (induction i tbuf n this_buf or_buf rule: or_loop.induct)
  case (1 i tbuf n this_buf or_buf)
  show ?case
  proof (cases "i < length tbuf \<and> i < length this_buf \<and> i < length or_buf")
    case True
    with "1.prems" "1.IH" show ?thesis by (subst or_loop.simps) simp
  next
    case False
    with "1.prems" show ?thesis by (subst or_loop.simps) auto
  qed
qed

subsection \<open>Zero magnitudes\<close>

lemma le_val_zero: "le_val xs = 0 \<Longrightarrow> xs = replicate (length xs) 0"
proof (induction xs)
  case Nil
  show ?case by simp
next
  case (Cons x xs)
  then show ?case by (simp add: unat_eq_0)
qed

lemma magnitude_zero_bytes:
  assumes "magnitude d = 0"
  shows "first_byte d = replicate (length (first_byte d)) 0"
proof -
  have "rev (first_byte d) = replicate (length (rev (first_byte d))) 0"
    using assms unfolding magnitude_def be_val_def by (rule le_val_zero)
  then have "rev (rev (first_byte d)) = rev (replicate (length (first_byte d)) 0)"
    by simp
  then show ?thesis by simp
qed

lemma memcmp_same: "memcmp xs xs n = 0"
proof (induction xs arbitrary: n)
  case Nil
  show ?case by simp
next
  case (Cons x xs)
  show ?case by (cases n) (simp_all add: Cons.IH)
qed

lemma equal_int_zero:
  assumes "wf d" and "magnitude d = 0"
  shows "equal_int d 0"
proof -
  have L: "\<not> length_bbi d < BBI_MIN_SIZE" using assms(1) by (simp add: wf_def)
  have n: "length (first_byte d) = length_bbi d * 4"
    using assms(1) by (simp add: wf_def sizeof_BBI_BASE_TYPE_def)
  have "first_byte d = replicate (length_bbi d * 4) 0"
    using magnitude_zero_bytes [OF assms(2)] n by simp
  then show ?thesis
    by (simp add: equal_int_def Let_def assign_int_0_constructor [OF L] memcmp_same)
qed

lemma le_val_zeros: "set xs \<subseteq> {0} \<Longrightarrow> le_val xs = 0"
  by (induction xs) simp_all

lemma set_replicate_zeros: "set (replicate n (0::8 word)) \<subseteq> {0}"
  by auto

lemma le_val_replicate_0: "le_val (replicate n 0) = 0"
  by (rule le_val_zeros) (rule set_replicate_zeros)

lemma le_word_zeros: "set xs \<subseteq> {0} \<Longrightarrow> le_word xs = 0"
  by (induction xs) simp_all

lemma load_word_zeros:
  assumes "set buf \<subseteq> {0}"
  shows "load_word buf j = 0"
proof -
  have "set (take 4 (drop (j * 4) buf)) \<subseteq> set buf"
    using set_take_subset set_drop_subset by fastforce
  with assms show ?thesis unfolding load_word_def by (intro le_word_zeros) blast
qed

lemma word_bytes_0: "word_bytes 0 = replicate 4 0"
  by (simp add: word_bytes_def map_replicate_const)

lemma reverse_word_0: "reverse_word 0 = 0"
  by (simp add: reverse_word_def word_bytes_0 REVERSE_BYTE_ORDER_def le_word_zeros)

lemma store_word_zeros:
  assumes "set buf \<subseteq> {0}"
  shows "set (store_word buf j 0) \<subseteq> {0}"
proof -
  have "set (take (j * 4) buf) \<subseteq> set buf" "set (drop (j * 4 + 4) buf) \<subseteq> set buf"
    by (rule set_take_subset, rule set_drop_subset)
  with assms show ?thesis
    by (auto simp: store_word_def memcpy_def word_bytes_0)
qed

lemma mul_inner_zeros:
  assumes "set mult_buf \<subseteq> {0} \<or> set this_buf \<subseteq> {0}"
  shows "set tval \<subseteq> {0} \<Longrightarrow>
         set (mul_inner mult_buf p_mult this_buf k tval p_tval 0) \<subseteq> {0}"
proof (induction k arbitrary: tval p_tval)
  case 0
  then show ?case by simp
next
  case (Suc k)
  have prod: "(ucast (reverse_word (load_word mult_buf p_mult)) :: 64 word)
                * ucast (reverse_word (load_word this_buf k)) = 0"
    using assms by (auto simp: load_word_zeros reverse_word_0)
  have st: "set (store_word tval p_tval 0) \<subseteq> {0}"
    using Suc.prems by (rule store_word_zeros)
  show ?case
    using Suc.IH [OF st]
    by (simp add: Let_def prod load_word_zeros [OF Suc.prems])
qed

lemma mul_outer_zeros:
  assumes "set mult_buf \<subseteq> {0} \<or> set this_buf \<subseteq> {0}"
  shows "set tval \<subseteq> {0} \<Longrightarrow>
         set (mul_outer mult_buf k this_buf this_length tval tval_length i) \<subseteq> {0}"
proof (induction k arbitrary: tval i)
  case 0
  then show ?case by simp
next
  case (Suc k)
  show ?case
    using Suc.IH [OF mul_inner_zeros [OF assms Suc.prems]]
    by (simp add: Let_def)
qed

lemma zero_constructed:
  "assign_int 4 0 (constructor n)
     = (constructor n)\<lparr>first_byte := replicate (num_bytes (constructor n)) 0, flags := 0\<rparr>"
  by (rule assign_int_0)
    (simp_all add: constructor_def malloc_def Let_def BBI_MIN_SIZE_def sizeof_BBI_BASE_TYPE_def)

lemma times_bbi_zero:
  assumes "magnitude z = 0"
  shows "magnitude (times_bbi a z) = 0"
proof -
  have z: "set (first_byte z) \<subseteq> {0}"
    using magnitude_zero_bytes [OF assms] set_replicate_zeros [of "length (first_byte z)"]
    by simp
  have t: "set (first_byte (assign_int 4 0 (constructor n))) \<subseteq> {0}" for n
    by (simp add: zero_constructed set_replicate_zeros)
  have "set (first_byte (times_bbi a z)) \<subseteq> {0}"
    using mul_outer_zeros [OF disjI1 [OF z] t] mul_outer_zeros [OF disjI2 [OF z] t]
    by (simp add: times_bbi_def Let_def)
  then have "set (rev (first_byte (times_bbi a z))) \<subseteq> {0}" by simp
  then show ?thesis unfolding magnitude_def be_val_def by (rule le_val_zeros)
qed

lemma times_bbi_sign:
  "IS_NEGATIVE (flags (times_bbi a z)) = (IS_NEGATIVE (flags a) \<noteq> IS_NEGATIVE (flags z))"
  by (auto simp: times_bbi_def Let_def zero_constructed IS_NEGATIVE_def BBI_NEGATIVE_def)

lemma first_byte_neg:
  assumes "wf b"
  shows "first_byte (neg b) = first_byte b"
proof -
  have "num_bytes (constructor (length_bbi b)) = num_bytes b"
    "length (first_byte (constructor (length_bbi b))) = num_bytes b"
    "length (first_byte b) = num_bytes b"
    using assms by (simp_all add: wf_def constructor_def malloc_def Let_def)
  then show ?thesis by (simp add: neg_def Let_def assign_same_size)
qed

subsection \<open>The second loop of the division\<close>

text \<open>
  Every round of the second loop executes \<^verbatim>\<open>*remainder |= next_bit\<close>, which runs
  into the loop of the bitwise or.
\<close>

lemma shift_left_eq_int_1: "\<exists>r. shift_left_eq_int v 1 = Inr r"
  by (simp add: shift_left_eq_int_def shift_left_int_def shift_left_def Let_def)

lemma bit_or_eq_int_overrun: "bit_or_eq_int v n = Inl Out_of_bounds"
  by (simp add: bit_or_eq_int_def bit_or_int_def bit_or_def Let_def or_loop_overrun
      num_bytes_constructor)

lemma divide_step_overrun: "divide_step s = Inl Out_of_bounds"
proof -
  obtain r where "shift_left_eq_int (remainder s) 1 = Inr r"
    using shift_left_eq_int_1 by blast
  then show ?thesis
    by (simp add: divide_step_def Let_def on_value_def bit_or_eq_int_overrun)
qed

lemma gates_top_bit_set:
  "equal_int (bbi_of_int 7) 0 = False"
  "greater_bbi (bbi_of_int 7) (assign_int 8 (- 0x8000000000000000) (constructor 0)) = False"
  "equal_bbi (bbi_of_int 7) (assign_int 8 (- 0x8000000000000000) (constructor 0)) = False"
  "equal_int (assign_int 8 (- 0x8000000000000000) (constructor 0)) 1 = False"
  "equal_int (assign_int 8 (- 0x8000000000000000) (constructor 0)) 0 = False"
  "top_bit (assign_int 8 (- 0x8000000000000000) (constructor 0)) = 128"
  "num_bytes (assign_int 8 (- 0x8000000000000000) (constructor 0)) = 8"
  by code_simp+

section \<open>Claims\<close>

text \<open>
  C1. For a non-negative value \<open>v\<close> of a 64-bit type, assigning \<open>v\<close> to a bigbigint and
  converting back should return \<open>v\<close>. The code returns the address of the last
  \<^verbatim>\<open>sizeof(T)\<close> bytes of the buffer instead, whatever \<open>v\<close> is: for a type of \<open>sz\<close>
  bytes, every natural number \<open>n\<close> and every bigbigint \<open>b\<close> whose block is at address
  \<open>addr\<close>, the conversion yields an address expression in which \<open>n\<close> does not occur;
  after assigning 5 to a default-constructed bigbigint it yields \<open>addr mod 2 ^ 64\<close>.
\<close>

theorem C1_cast_returns_address:
  "cast_operator sz addr (assign_int sz (int n) b)
     = (addr + (num_bytes b - sz)) mod 2 ^ (8 * sz)
   \<and> cast_operator 8 addr (assign_int 8 5 (constructor 0)) = addr mod 2 ^ 64"
  by (simp add: cast_operator_def IS_NEGATIVE_def constructor_def BBI_MIN_SIZE_def
      sizeof_BBI_BASE_TYPE_def)

text \<open>
  C2. Dividing 100 by 7 should give quotient 14 and remainder 2. In the code the call
  never returns: 100 is stored with its top bit clear, the first loop shifts the dividend
  left by 1 until the top bit is set, and that shift returns the dividend unchanged. Both
  \<^verbatim>\<open>_perform_integral_division\<close> and \<^verbatim>\<open>operator /\<close> run forever on this input.
  A dividend whose top bit is set (here the magnitude \<open>2 ^ 63\<close>) passes the first loop
  and fails in the first round of the second.
\<close>

theorem C2_division_100_by_7_never_returns:
  "perform_integral_division (bbi_of_int 100) (bbi_of_int 7) (constructor 0) (constructor 0)
     = None
   \<and> divide_bbi (bbi_of_int 100) (bbi_of_int 7) = None
   \<and> perform_integral_division (assign_int 8 (- 0x8000000000000000) (constructor 0))
         (bbi_of_int 7) (constructor 0) (constructor 0) = Some (Inl Out_of_bounds)"
proof -
  have "skip_loop \<lparr>dividend = bbi_of_int 100, divisor = bbi_of_int 7,
            quotient = assign_int 4 0 (constructor 0),
            remainder = assign_int 4 0 (constructor 0), sub_val = constructor 0,
            ds_num_bytes = 0, ds_num_bits = 0\<rparr> = None"
    by (rule skip_loop_diverges) (simp_all add: gates_100_7)
  then have never: "perform_integral_division (bbi_of_int 100) (bbi_of_int 7)
               (constructor 0) (constructor 0) = None"
    by (simp add: perform_integral_division_def Let_def gates_100_7)
  define s0 where "s0 = \<lparr>dividend = assign_int 8 (- 0x8000000000000000) (constructor 0),
            divisor = bbi_of_int 7, quotient = assign_int 4 0 (constructor 0),
            remainder = assign_int 4 0 (constructor 0), sub_val = constructor 0,
            ds_num_bytes = 0, ds_num_bits = 0\<rparr>"
  have "skip_loop s0 = Some (Inr s0)"
    by (subst skip_loop.simps) (simp add: s0_def gates_top_bit_set)
  moreover have "divide_loop s0 = Some (Inl Out_of_bounds)"
    by (subst divide_loop.simps)
      (simp add: s0_def gates_top_bit_set divide_step_overrun num_bytes_constructor)
  ultimately have "perform_integral_division
        (assign_int 8 (- 0x8000000000000000) (constructor 0))
        (bbi_of_int 7) (constructor 0) (constructor 0) = Some (Inl Out_of_bounds)"
    by (simp add: perform_integral_division_def Let_def gates_top_bit_set
        s0_def [symmetric])
  with never show ?thesis by (simp add: divide_bbi_def Let_def)
qed

text \<open>
  C3. For well-formed operands of the same sign whose magnitudes sum to at least
  \<open>256 ^ n\<close>, \<open>n\<close> the byte count of the longer operand, \<^verbatim>\<open>a + b\<close> returns a value
  one word longer than the longer operand, whose new first word holds the carry 1 in its
  lowest byte; the value is well formed, has the sign of \<open>a\<close> and the magnitude
  \<open>|a| + |b|\<close>, and \<open>a\<close> is unchanged. In particular \<open>0xFFFFFFFF + 1\<close> is the two-word
  value with words 1 and 0, that is \<open>0x100000000\<close>.
\<close>

theorem C3_carry_grows_by_one_word:
  "(wf a \<and> wf b \<and> IS_NEGATIVE (flags a) = IS_NEGATIVE (flags b)
      \<and> 256 ^ MAX_val (num_bytes a) (num_bytes b) \<le> magnitude a + magnitude b
    \<longrightarrow> fst (plus_bbi a b) = a
      \<and> length_bbi (snd (plus_bbi a b)) = MAX_val (length_bbi a) (length_bbi b) + 1
      \<and> wf (snd (plus_bbi a b))
      \<and> take 4 (first_byte (snd (plus_bbi a b))) = [0, 0, 0, 1]
      \<and> flags (snd (plus_bbi a b)) = flags a
      \<and> magnitude (snd (plus_bbi a b)) = magnitude a + magnitude b)
   \<and> snd (plus_bbi (assign_int 4 0xFFFFFFFF (constructor 0)) (bbi_of_int 1))
       = \<lparr>first_byte = [0, 0, 0, 1, 0, 0, 0, 0], num_bytes = 8, length_bbi = 2, flags = 0\<rparr>
   \<and> magnitude (snd (plus_bbi (assign_int 4 0xFFFFFFFF (constructor 0)) (bbi_of_int 1)))
       = 0x100000000"
proof -
  have general: "fst (plus_bbi a b) = a
      \<and> length_bbi (snd (plus_bbi a b)) = MAX_val (length_bbi a) (length_bbi b) + 1
      \<and> wf (snd (plus_bbi a b))
      \<and> take 4 (first_byte (snd (plus_bbi a b))) = [0, 0, 0, 1]
      \<and> flags (snd (plus_bbi a b)) = flags a
      \<and> magnitude (snd (plus_bbi a b)) = magnitude a + magnitude b"
    if wa: "wf a" and wb: "wf b"
      and sign: "IS_NEGATIVE (flags a) = IS_NEGATIVE (flags b)"
      and big: "256 ^ MAX_val (num_bytes a) (num_bytes b) \<le> magnitude a + magnitude b"
  proof -
    define xs where "xs = rev (first_byte a)"
    define ys where "ys = rev (first_byte b)"
    obtain outs c' where run: "add_loop xs ys 0 = (outs, c')"
      by (cases "add_loop xs ys 0")
    have la: "length xs = num_bytes a" and lb: "length ys = num_bytes b"
      using wa wb by (simp_all add: wf_def xs_def ys_def)
    have mag: "magnitude a = le_val xs" "magnitude b = le_val ys"
      by (simp_all add: magnitude_def be_val_def xs_def ys_def)
    define M where "M = max (length xs) (length ys)"
    define k where "k = min (length xs) (length ys)"
    have big': "256 ^ M \<le> le_val xs + le_val ys"
      using big by (auto simp: la lb M_def MAX_val_def max_def mag split: if_splits)
    from add_loop_carry_out [OF run big' [unfolded M_def]] have c': "c' = 1" .
    have snd: "length outs = k"
      "le_val outs + 256 ^ k = le_val (take k xs) + le_val (take k ys)"
      using add_loop_sound [OF _ run] by (auto simp: k_def c')
    have total: "le_val xs + le_val ys = le_val outs + 256 ^ M"
    proof (cases "length xs \<le> length ys")
      case True
      then have kk: "k = length xs" "M = length ys" by (simp_all add: k_def M_def)
      have ob: "le_val outs < 256 ^ k" using le_val_bound [of outs] snd(1) by simp
      have "le_val ys + 256 ^ k = le_val (take k ys) + 256 ^ length ys"
      proof (rule le_val_high_ones)
        show "k \<le> length ys" by (simp add: k_def)
        show "256 ^ length ys \<le> le_val ys + le_val xs" using big' kk by simp
        show "le_val (take k ys) + le_val xs < 2 * 256 ^ k"
          using snd(2) ob kk by simp
      qed
      then show ?thesis using snd(2) kk by simp
    next
      case False
      then have kk: "k = length ys" "M = length xs" by (simp_all add: k_def M_def)
      have ob: "le_val outs < 256 ^ k" using le_val_bound [of outs] snd(1) by simp
      have "le_val xs + 256 ^ k = le_val (take k xs) + 256 ^ length xs"
      proof (rule le_val_high_ones)
        show "k \<le> length xs" by (simp add: k_def)
        show "256 ^ length xs \<le> le_val xs + le_val ys" using big' kk by simp
        show "le_val (take k xs) + le_val ys < 2 * 256 ^ k"
          using snd(2) ob kk by simp
      qed
      then show ?thesis using snd(2) kk by simp
    qed
    define L where "L = MAX_val (length_bbi a) (length_bbi b)"
    have L2: "\<not> L < BBI_MIN_SIZE" using wa by (auto simp: L_def MAX_val_def wf_def)
    have M_L: "M = L * 4"
      using wa wb
      by (auto simp: M_def L_def la lb MAX_val_def max_def wf_def sizeof_BBI_BASE_TYPE_def)
    have kM: "k \<le> M" by (simp add: k_def M_def)
    define low where "low = store_from_end (replicate (L * 4) 0) outs"
    have low_eq: "low = replicate (M - k) 0 @ rev outs"
      using kM by (simp add: low_def store_from_end_def snd(1) M_L)
    have ll: "length low = L * 4" using kM by (simp add: low_eq snd(1) M_L)
    have and1: "(1::nat) AND 255 = 1" by (simp add: and_255)
    define R where "R = \<lparr>first_byte = [0, 0, 0, 1] @ low, num_bytes = (L + 1) * 4,
                          length_bbi = L + 1, flags = flags a\<rparr>"
    have res: "plus_bbi a b = (a, R)"
      unfolding plus_bbi_same_sign [OF sign run [unfolded xs_def ys_def]] L_def [symmetric]
        assign_int_0_constructor [OF L2] R_def
      by (simp add: c' Let_def low_def [symmetric] upsize_one_word ll and1 store_carry_byte
          sizeof_BBI_BASE_TYPE_def)
    have "be_val ([0, 0, 0, 1] @ low) = le_val (outs @ replicate (M - k) 0 @ [1, 0, 0, 0])"
      by (simp add: be_val_def low_eq)
    also have "\<dots> = le_val outs + 256 ^ k * (256 ^ (M - k) * 1)"
      by (simp add: le_val_append le_val_replicate_0 snd(1))
    also have "\<dots> = le_val outs + 256 ^ M"
      using kM by (simp flip: power_add)
    finally have "be_val ([0, 0, 0, 1] @ low) = magnitude a + magnitude b"
      using total mag by simp
    then have val: "magnitude R = magnitude a + magnitude b"
      by (simp add: R_def magnitude_def)
    have shape: "length_bbi R = L + 1" "wf R" "take 4 (first_byte R) = [0, 0, 0, 1]"
      "flags R = flags a"
      using L2 by (simp_all add: R_def wf_def ll sizeof_BBI_BASE_TYPE_def BBI_MIN_SIZE_def)
    show ?thesis
      unfolding res L_def [symmetric] using val shape by simp
  qed
  have concrete: "snd (plus_bbi (assign_int 4 0xFFFFFFFF (constructor 0)) (bbi_of_int 1))
       = \<lparr>first_byte = [0, 0, 0, 1, 0, 0, 0, 0], num_bytes = 8, length_bbi = 2, flags = 0\<rparr>"
    by code_simp
  have "magnitude \<lparr>first_byte = [0, 0, 0, 1, 0, 0, 0, 0], num_bytes = 8, length_bbi = 2,
                   flags = 0\<rparr> = 0x100000000"
    by (simp add: magnitude_def be_val_def)
  with general concrete show ?thesis by simp
qed

theorem C3_carry_grows_by_one_word_witness:
  "wf \<lparr>first_byte = [255, 255, 255, 255, 255, 255, 255, 255], num_bytes = 8,
       length_bbi = 2, flags = 0\<rparr>
   \<and> magnitude \<lparr>first_byte = [255, 255, 255, 255, 255, 255, 255, 255], num_bytes = 8,
       length_bbi = 2, flags = 0\<rparr> = 0xFFFFFFFFFFFFFFFF
   \<and> plus_bbi \<lparr>first_byte = [255, 255, 255, 255, 255, 255, 255, 255], num_bytes = 8,
                length_bbi = 2, flags = 0\<rparr>
              \<lparr>first_byte = [255, 255, 255, 255, 255, 255, 255, 255], num_bytes = 8,
                length_bbi = 2, flags = 0\<rparr>
       = (\<lparr>first_byte = [255, 255, 255, 255, 255, 255, 255, 255], num_bytes = 8,
            length_bbi = 2, flags = 0\<rparr>,
          \<lparr>first_byte = [0, 0, 0, 1, 255, 255, 255, 255, 255, 255, 255, 254],
            num_bytes = 12, length_bbi = 3, flags = 0\<rparr>)
   \<and> magnitude (snd (plus_bbi
         \<lparr>first_byte = [255, 255, 255, 255, 255, 255, 255, 255], num_bytes = 8,
           length_bbi = 2, flags = 0\<rparr>
         \<lparr>first_byte = [255, 255, 255, 255, 255, 255, 255, 255], num_bytes = 8,
           length_bbi = 2, flags = 0\<rparr>)) = 0x1FFFFFFFFFFFFFFFE"
proof -
  define A where "A = \<lparr>first_byte = [255, 255, 255, 255, 255, 255, 255, 255 :: 8 word],
                        num_bytes = 8, length_bbi = 2, flags = 0\<rparr>"
  have h1: "wf A"
    by (simp add: A_def wf_def BBI_MIN_SIZE_def sizeof_BBI_BASE_TYPE_def)
  have h2: "magnitude A = 0xFFFFFFFFFFFFFFFF"
    by (simp add: A_def magnitude_def be_val_def)
  have h3: "256 ^ MAX_val (num_bytes A) (num_bytes A) \<le> magnitude A + magnitude A"
    unfolding h2 by (simp add: A_def MAX_val_def)
  have run: "plus_bbi A A = (A, \<lparr>first_byte = [0, 0, 0, 1, 255, 255, 255, 255, 255, 255, 255, 254],
            num_bytes = 12, length_bbi = 3, flags = 0\<rparr>)"
    unfolding A_def by code_simp
  have "magnitude (snd (plus_bbi A A)) = magnitude A + magnitude A"
    using C3_carry_grows_by_one_word [of A A] h1 h3 by blast
  then show ?thesis
    using h1 h2 run unfolding A_def by simp
qed

text \<open>
  C4. \<^verbatim>\<open>a + b\<close> should leave \<open>a\<close> as it was. With exactly one negative operand the
  code assigns the result to \<^verbatim>\<open>*this\<close>: after \<open>(-5) + 3\<close> the left operand holds
  \<open>-2\<close>.
\<close>

theorem C4_plus_assigns_to_this:
  "fst (plus_bbi (bbi_of_int (- 5)) (bbi_of_int 3)) = bbi_of_int (- 2)
   \<and> bbi_of_int (- 2) \<noteq> bbi_of_int (- 5)"
  by code_simp

text \<open>
  C5. A negative value should compare less than a non-negative one. The comparison of two
  bigbigints hands the magnitudes to memcmp and never reads the flags: \<open>-5 < 3\<close> is false
  and \<open>-5 > 3\<close> is true.
\<close>

theorem C5_comparison_ignores_sign:
  "less_bbi (bbi_of_int (- 5)) (bbi_of_int 3) = False
   \<and> greater_bbi (bbi_of_int (- 5)) (bbi_of_int 3) = True"
  by code_simp

text \<open>
  C6. A left shift by 8 bits should move the magnitude by one whole byte, that is multiply
  it by 256. The code moves it by one byte and seven more bits: \<open>0x100000002\<close> shifted by 8
  is \<open>0x800000010000\<close>, not \<open>0x10000000200\<close>, and 1 shifted by 8 is 32768. The byte copy
  is taken for a shift by 1 only, which returns the value unshifted.
\<close>

theorem C6_shift_by_8_moves_15_bits:
  "shift_left (assign_int 8 0x100000002 (constructor 0)) 8
     = Inr (assign_int 8 0x800000010000 (constructor 0))
   \<and> shift_left (bbi_of_int 1) 8 = Inr (bbi_of_int 32768)
   \<and> shift_left (bbi_of_int 1) 1 = Inr (bbi_of_int 1)"
  by code_simp

text \<open>
  C7. Division by a divisor of zero magnitude takes the \<^verbatim>\<open>exit(199)\<close> path: for every
  dividend, and whatever the quotient and remainder objects hold, neither
  \<^verbatim>\<open>_perform_integral_division\<close> nor \<^verbatim>\<open>operator /\<close> returns a quotient; the
  exit is reached before either loop.
\<close>

theorem C7_division_by_zero_exits:
  assumes "wf d" and "magnitude d = 0"
  shows "perform_integral_division a d q r = Some (Inl (Exit 199))
       \<and> divide_bbi a d = Some (Inl (Exit 199))"
  using equal_int_zero [OF assms]
  by (simp add: perform_integral_division_def divide_bbi_def Let_def)

theorem C7_division_by_zero_exits_witness:
  "wf (bbi_of_int 0) \<and> magnitude (bbi_of_int 0) = 0
   \<and> perform_integral_division (bbi_of_int 100) (bbi_of_int 0) (constructor 0) (constructor 0)
       = Some (Inl (Exit 199))
   \<and> divide_bbi (bbi_of_int 100) (bbi_of_int 0) = Some (Inl (Exit 199))"
proof -
  have h1: "wf (bbi_of_int 0)" by code_simp
  have h2: "magnitude (bbi_of_int 0) = 0" by code_simp
  show ?thesis
    using h1 h2 C7_division_by_zero_exits [OF h1 h2, of "bbi_of_int 100" "constructor 0" "constructor 0"]
    by simp
qed

text \<open>
  C8. Every zero should have its negative flag clear, in particular after unary negation
  of a zero and after \<open>a * 0\<close> with a negative \<open>a\<close>. Counterexample: negating the zero
  assigned from the integer 0, and multiplying \<open>-3\<close> by it, both give a zero magnitude with
  the negative flag set.
\<close>

theorem C8_signed_zero_counterexample:
  "magnitude (neg (bbi_of_int 0)) = 0 \<and> IS_NEGATIVE (flags (neg (bbi_of_int 0)))
   \<and> magnitude (times_bbi (bbi_of_int (- 3)) (bbi_of_int 0)) = 0
   \<and> IS_NEGATIVE (flags (times_bbi (bbi_of_int (- 3)) (bbi_of_int 0)))"
  by code_simp

text \<open>
  C8, as the code has it. A zero assigned from the integer 0 has zero magnitude and a clear
  negative flag. No operation normalises the sign of a zero: unary negation keeps the
  magnitude and toggles the flag of every value, and \<open>a * z\<close> with \<open>z\<close> of zero magnitude
  has zero magnitude and the negative flag set exactly when the flags of \<open>a\<close> and \<open>z\<close>
  differ.
\<close>

theorem C8_zero_sign_not_normalised:
  "magnitude (assign_int 4 0 (constructor n)) = 0
   \<and> \<not> IS_NEGATIVE (flags (assign_int 4 0 (constructor n)))
   \<and> (wf b \<longrightarrow> magnitude (neg b) = magnitude b
                \<and> IS_NEGATIVE (flags (neg b)) = (\<not> IS_NEGATIVE (flags b)))
   \<and> (magnitude z = 0 \<longrightarrow> magnitude (times_bbi a z) = 0
                \<and> IS_NEGATIVE (flags (times_bbi a z))
                    = (IS_NEGATIVE (flags a) \<noteq> IS_NEGATIVE (flags z)))"
proof -
  have "magnitude (assign_int 4 0 (constructor n)) = 0"
    by (simp add: magnitude_def be_val_def zero_constructed le_val_replicate_0)
  moreover have "\<not> IS_NEGATIVE (flags (assign_int 4 0 (constructor n)))"
    by (simp add: IS_NEGATIVE_def)
  ultimately show ?thesis
    by (simp add: magnitude_def first_byte_neg times_bbi_zero [unfolded magnitude_def]
        times_bbi_sign)
qed

theorem C8_zero_sign_not_normalised_witness:
  "wf (bbi_of_int 0) \<and> magnitude (bbi_of_int 0) = 0
   \<and> magnitude (neg (bbi_of_int 0)) = magnitude (bbi_of_int 0)
   \<and> IS_NEGATIVE (flags (neg (bbi_of_int 0)))
   \<and> magnitude (times_bbi (bbi_of_int (- 3)) (bbi_of_int 0)) = 0
   \<and> IS_NEGATIVE (flags (times_bbi (bbi_of_int (- 3)) (bbi_of_int 0)))"
proof -
  have h1: "wf (bbi_of_int 0)" by code_simp
  have h2: "magnitude (bbi_of_int 0) = 0" by code_simp
  have h3: "\<not> IS_NEGATIVE (flags (bbi_of_int 0))" "IS_NEGATIVE (flags (bbi_of_int (- 3)))"
    by code_simp+
  show ?thesis
    using h1 h2 h3
      C8_zero_sign_not_normalised [of 0 "bbi_of_int 0" "bbi_of_int 0" "bbi_of_int (- 3)"]
    by simp
qed

text \<open>
  C9. \<^verbatim>\<open>a *= v\<close> should leave \<open>a\<close> equal to \<^verbatim>\<open>a * v\<close>. The body of
  \<^verbatim>\<open>operator *=\<close> adds: \<open>3 *= 2\<close> leaves 5, while \<^verbatim>\<open>3 * 2\<close> returns a
  four-word value whose last word holds the bytes 06 00 00 00.
\<close>

theorem C9_times_eq_adds:
  "times_eq (bbi_of_int 3) (bbi_of_int 2) = bbi_of_int 5
   \<and> times_bbi (bbi_of_int 3) (bbi_of_int 2)
       = \<lparr>first_byte = [0, 0, 0, 0, 0, 0, 0, 0, 0, 0, 0, 0, 6, 0, 0, 0],
          num_bytes = 16, length_bbi = 4, flags = 0\<rparr>"
  by code_simp

text \<open>
  C10. The bitwise or should stop after the bytes of the result and return their
  byte-by-byte or. The loop tests \<^verbatim>\<open>tVal._num_bytes\<close>, which is never zero, so for
  every pair of operands the index runs off the end of the buffers and no value is
  returned.
\<close>

theorem C10_bit_or_never_returns: "bit_or a b = Inl Out_of_bounds"
  by (simp add: bit_or_def Let_def or_loop_overrun num_bytes_constructor)

end
